theory Spec2Isabelle
  imports Complex_Main "HOL-Library.Log_Nat" "HOL-Library.Multiset" "HOL-Library.Sublist"
begin

section \<open>JavaScript values\<close>

text \<open>
  The dashboard of \<^verbatim>\<open>src/frontend/src/App.jsx\<close> computes on JavaScript values. A number is
  an IEEE double: not-a-number, one of the two infinities, or a finite value, which is kept
  here as the rational it denotes. The two zeros are one value (they are equal under
  \<^verbatim>\<open>===\<close>, both are falsy, and no operation used by the embedded code tells them apart).
  An object or function that is neither a primitive nor a row is opaque and carries a name.
\<close>

datatype jsnum = NaN | PosInf | NegInf | Fin rat

datatype jsval = JUndefined | JNull | JBool bool | JNum jsnum | JStr string | JObj string

text \<open>ToBoolean: what \<^verbatim>\<open>||\<close> and the conditional rendering test.\<close>

fun truthy :: "jsval \<Rightarrow> bool" where
  "truthy JUndefined = False"
| "truthy JNull = False"
| "truthy (JBool b) = b"
| "truthy (JNum n) = (n \<noteq> NaN \<and> n \<noteq> Fin 0)"
| "truthy (JStr s) = (s \<noteq> [])"
| "truthy (JObj _) = True"

text \<open>\<^verbatim>\<open>a || b\<close>\<close>

definition js_or :: "jsval \<Rightarrow> jsval \<Rightarrow> jsval" where
  "js_or a b = (if truthy a then a else b)"

definition nullish :: "jsval \<Rightarrow> bool" where
  "nullish v = (v = JUndefined \<or> v = JNull)"

text \<open>\<^verbatim>\<open>a ?? b\<close>\<close>

definition js_coalesce :: "jsval \<Rightarrow> jsval \<Rightarrow> jsval" where
  "js_coalesce a b = (if nullish a then b else a)"

text \<open>\<^verbatim>\<open>typeof v === "number"\<close>\<close>

fun is_number :: "jsval \<Rightarrow> bool" where
  "is_number (JNum _) = True"
| "is_number _ = False"

subsection \<open>Plain objects\<close>

text \<open>
  A plain object (an object literal, a parsed CSV row) is the list of its own properties in
  the order in which they were created (for a parsed row, the order of the header's
  fields), each key once. Reading a property that the object does not own continues in
  \<^verbatim>\<open>Object.prototype\<close>, whose members are functions (and, for \<^verbatim>\<open>__proto__\<close>, the prototype
  object itself).
\<close>

type_synonym obj = "(string \<times> jsval) list"

definition object_prototype :: obj where
  "object_prototype =
    [(''constructor'', JObj ''Object''),
     (''hasOwnProperty'', JObj ''Object.prototype.hasOwnProperty''),
     (''isPrototypeOf'', JObj ''Object.prototype.isPrototypeOf''),
     (''propertyIsEnumerable'', JObj ''Object.prototype.propertyIsEnumerable''),
     (''toLocaleString'', JObj ''Object.prototype.toLocaleString''),
     (''toString'', JObj ''Object.prototype.toString''),
     (''valueOf'', JObj ''Object.prototype.valueOf''),
     (''__proto__'', JObj ''Object.prototype''),
     (''__defineGetter__'', JObj ''Object.prototype.__defineGetter__''),
     (''__defineSetter__'', JObj ''Object.prototype.__defineSetter__''),
     (''__lookupGetter__'', JObj ''Object.prototype.__lookupGetter__''),
     (''__lookupSetter__'', JObj ''Object.prototype.__lookupSetter__'')]"

text \<open>\<^verbatim>\<open>ob[k]\<close>, also written \<^verbatim>\<open>ob.k\<close>\<close>

definition js_get :: "obj \<Rightarrow> string \<Rightarrow> jsval" where
  "js_get ob k =
    (case map_of ob k of
       Some v \<Rightarrow> v
     | None \<Rightarrow> (case map_of object_prototype k of Some v \<Rightarrow> v | None \<Rightarrow> JUndefined))"

text \<open>Decimal digits and the number that a string of them denotes.\<close>

definition is_digit :: "char \<Rightarrow> bool" where
  "is_digit c = (c \<in> set ''0123456789'')"

definition digit_val :: "char \<Rightarrow> nat" where
  "digit_val c = of_char c - (48::nat)"

definition digits_val :: "string \<Rightarrow> nat" where
  "digits_val ds = foldl (\<lambda>acc c. 10 * acc + digit_val c) 0 ds"

text \<open>
  An array index: the canonical decimal text (no leading zero) of an integer from 0 to
  \<open>2 ^ 32 - 2\<close>.
\<close>

definition is_array_index :: "string \<Rightarrow> bool" where
  "is_array_index k =
    (k \<noteq> [] \<and> list_all is_digit k \<and> (k = ''0'' \<or> take 1 k \<noteq> ''0'')
     \<and> digits_val k < 2 ^ 32 - 1)"

text \<open>
  \<^verbatim>\<open>Object.keys(ob)\<close>: the own keys that are array indices, in ascending numeric order,
  followed by the other own keys in the order in which they were created.
\<close>

definition object_keys :: "obj \<Rightarrow> string list" where
  "object_keys ob =
    sort_key digits_val (filter is_array_index (map fst ob))
    @ filter (\<lambda>k. \<not> is_array_index k) (map fst ob)"

subsection \<open>Strings of numbers\<close>

text \<open>The decimal digits of an array index, as a template literal prints it.\<close>

fun nat_to_string :: "nat \<Rightarrow> string" where
  "nat_to_string n =
    (if n < 10 then [''0123456789'' ! n]
     else nat_to_string (n div 10) @ [''0123456789'' ! (n mod 10)])"

declare nat_to_string.simps [simp del]


section \<open>The AQI time series (\<^verbatim>\<open>aqiLineData\<close>)\<close>

record line_view =
  labels :: "jsval list"
  data :: "jsval list"

text \<open>\<^verbatim>\<open>(r, i) => r.date || `Reading ${i + 1}`\<close>\<close>

definition row_label :: "obj \<Rightarrow> nat \<Rightarrow> jsval" where
  "row_label r i = js_or (js_get r ''date'') (JStr (''Reading '' @ nat_to_string (i + 1)))"

text \<open>\<^verbatim>\<open>(r) => r.AQI ?? r.aqi ?? 0\<close>\<close>

definition row_aqi :: "obj \<Rightarrow> jsval" where
  "row_aqi r = js_coalesce (js_get r ''AQI'') (js_coalesce (js_get r ''aqi'') (JNum (Fin 0)))"

text \<open>The chart styling constants of the dataset are not part of the model.\<close>

definition aqiLineData :: "obj list \<Rightarrow> line_view option" where
  "aqiLineData csvData =
    (if length csvData > 0
     then Some \<lparr>labels = map (\<lambda>(r, i). row_label r i) (zip csvData [0..<length csvData]),
                data = map row_aqi csvData\<rparr>
     else None)"

text \<open>
  What the charts tab shows in the AQI section once a dataset is loaded: the line chart when
  \<^verbatim>\<open>aqiLineData\<close> is truthy, and otherwise the message that no AQI column was detected.
\<close>

datatype aqi_section = LineChart line_view | NoAqiColumnMessage

definition charts_aqi_section :: "obj list \<Rightarrow> aqi_section" where
  "charts_aqi_section csvData =
    (case aqiLineData csvData of Some v \<Rightarrow> LineChart v | None \<Rightarrow> NoAqiColumnMessage)"

text \<open>The header set of a dataset, for the statement of header presence.\<close>

definition header_set :: "obj list \<Rightarrow> string set" where
  "header_set csvData = set (concat (map object_keys csvData))"

section \<open>The data table (\<^verbatim>\<open>DataTab\<close>)\<close>






section \<open>The category badge (\<^verbatim>\<open>getBadgeColor\<close>)\<close>

definition badge_map :: obj where
  "badge_map =
    [(''Good'', JStr ''bg-green-500''),
     (''Satisfactory'', JStr ''bg-lime-500''),
     (''Moderate'', JStr ''bg-yellow-400''),
     (''Poor'', JStr ''bg-orange-500''),
     (''Very Poor'', JStr ''bg-red-600''),
     (''Severe'', JStr ''bg-purple-700'')]"

definition getBadgeColor :: "string \<Rightarrow> jsval" where
  "getBadgeColor category = js_or (js_get badge_map category) (JStr ''bg-slate-700'')"

section \<open>The calculation lifecycle (\<^verbatim>\<open>handleSubmit\<close>)\<close>

text \<open>
  The three pieces of component state that \<^verbatim>\<open>handleSubmit\<close> writes. The score result is
  whatever the service's JSON body decodes to; the state holds it or \<^verbatim>\<open>null\<close>.
\<close>

record 'r calc_state =
  result :: "'r option"
  loading :: bool
  calcError :: string

text \<open>
  How the awaited \<^verbatim>\<open>fetch\<close> ends: the promise rejects (transport failure), or a response
  arrives with its \<^verbatim>\<open>ok\<close> flag and a body that \<^verbatim>\<open>res.json()\<close> decodes or rejects.
  A decoded body is taken to be a score object (a body that decodes to \<^verbatim>\<open>null\<close> is not
  told apart).
\<close>

datatype 'r fetch_outcome = TransportFailure | Response bool "'r option"

definition failure_message :: string where
  "failure_message = ''Failed to calculate AQI. Is the FastAPI backend running?''"

text \<open>The synchronous prefix of \<^verbatim>\<open>handleSubmit\<close>, up to the first \<^verbatim>\<open>await\<close>.\<close>

definition submit_begin :: "'r calc_state \<Rightarrow> 'r calc_state" where
  "submit_begin s = s\<lparr>loading := True, calcError := '''', result := None\<rparr>"

text \<open>The rest of the \<^verbatim>\<open>try\<close> block, its \<^verbatim>\<open>catch\<close> and its \<^verbatim>\<open>finally\<close>.\<close>

definition submit_end :: "'r fetch_outcome \<Rightarrow> 'r calc_state \<Rightarrow> 'r calc_state" where
  "submit_end outcome s =
    (let s' = (case outcome of
                 TransportFailure \<Rightarrow> s\<lparr>calcError := failure_message\<rparr>
               | Response ok body \<Rightarrow>
                   (if \<not> ok then s\<lparr>calcError := failure_message\<rparr>
                    else (case body of
                            None \<Rightarrow> s\<lparr>calcError := failure_message\<rparr>
                          | Some d \<Rightarrow> s\<lparr>result := Some d\<rparr>)))
     in s'\<lparr>loading := False\<rparr>)"

definition handleSubmit :: "'r calc_state \<Rightarrow> 'r fetch_outcome \<Rightarrow> 'r calc_state" where
  "handleSubmit s outcome = submit_end outcome (submit_begin s)"

fun succeeded :: "'r fetch_outcome \<Rightarrow> bool" where
  "succeeded (Response True (Some _)) = True"
| "succeeded _ = False"

text \<open>
  The events of the calculator. The submit button is rendered with \<^verbatim>\<open>disabled={loading}\<close>,
  so a submission starts only when none is in flight; a response is handled only while one is.
\<close>

datatype 'r event = Submit | Resolve "'r fetch_outcome"

inductive reachable :: "'r calc_state \<Rightarrow> bool" where
  init: "reachable \<lparr>result = None, loading = False, calcError = ''''\<rparr>"
| submit: "reachable s \<Longrightarrow> \<not> loading s \<Longrightarrow> reachable (submit_begin s)"
| resolve: "reachable s \<Longrightarrow> loading s \<Longrightarrow> reachable (submit_end outcome s)"

code_pred reachable .

text \<open>The lifecycle state that the spec names, read off the component state.\<close>

datatype 'r lifecycle = Idle | Pending | Succeeded 'r | Failed

definition lifecycle_of :: "'r calc_state \<Rightarrow> 'r lifecycle" where
  "lifecycle_of s =
    (if loading s then Pending
     else if calcError s \<noteq> '''' then Failed
     else (case result s of Some r \<Rightarrow> Succeeded r | None \<Rightarrow> Idle))"

section \<open>Arithmetic on doubles\<close>

text \<open>
  Every arithmetic result is the exact result rounded to the nearest double, ties to the
  even significand: 53 significant bits, the exponent of the last bit no smaller than
  \<open>-1074\<close>, and overflow to infinity from \<open>2 ^ 1024\<close>.
\<close>

definition pow2 :: "int \<Rightarrow> rat" where
  "pow2 e = (if 0 \<le> e then 2 ^ nat e else 1 / 2 ^ nat (- e))"

text \<open>For \<open>0 < q\<close>, the integer \<open>k\<close> with \<open>2 ^ k \<le> q < 2 ^ (k + 1)\<close>.\<close>

definition floor_log2 :: "rat \<Rightarrow> int" where
  "floor_log2 q =
    (let (p, d) = quotient_of q; k = bitlen p - bitlen d
     in if pow2 k \<le> q then k else k - 1)"

definition round_half_even :: "rat \<Rightarrow> int" where
  "round_half_even m =
    (let f = \<lfloor>m\<rfloor>; d = m - of_int f
     in if d < 1 / 2 then f
        else if 1 / 2 < d then f + 1
        else if even f then f else f + 1)"

definition round_double :: "rat \<Rightarrow> jsnum" where
  "round_double q =
    (if q = 0 then Fin 0
     else
       let a = \<bar>q\<bar>;
           e = max (floor_log2 a - 52) (- 1074);
           v = of_int (round_half_even (a / pow2 e)) * pow2 e
       in if pow2 1024 \<le> v then (if q < 0 then NegInf else PosInf)
          else Fin (if q < 0 then - v else v))"

text \<open>A number value that a double can hold.\<close>

fun is_double :: "jsnum \<Rightarrow> bool" where
  "is_double (Fin q) = (round_double q = Fin q)"
| "is_double _ = True"

text \<open>\<^verbatim>\<open>a + b\<close> on numbers.\<close>

fun fadd :: "jsnum \<Rightarrow> jsnum \<Rightarrow> jsnum" where
  "fadd NaN _ = NaN"
| "fadd _ NaN = NaN"
| "fadd PosInf NegInf = NaN"
| "fadd NegInf PosInf = NaN"
| "fadd PosInf _ = PosInf"
| "fadd _ PosInf = PosInf"
| "fadd NegInf _ = NegInf"
| "fadd _ NegInf = NegInf"
| "fadd (Fin a) (Fin b) = round_double (a + b)"

text \<open>
  \<^verbatim>\<open>x / vals.length\<close> for the length \<open>n\<close> of a non-empty array (the code divides only
  after \<^verbatim>\<open>if (!vals.length) return 0\<close>).
\<close>

fun fdiv_length :: "jsnum \<Rightarrow> nat \<Rightarrow> jsnum" where
  "fdiv_length (Fin q) n = round_double (q / of_nat n)"
| "fdiv_length x n = x"

section \<open>Column means (\<^verbatim>\<open>pollutantMeans\<close>)\<close>

definition pollutantKeys :: "string list" where
  "pollutantKeys = [''PM2_5'', ''PM10'', ''NO2'', ''SO2'', ''O3'', ''CO'']"

text \<open>\<^verbatim>\<open>.filter((v) => typeof v === "number" && !Number.isNaN(v))\<close>\<close>

fun number_cells :: "jsval list \<Rightarrow> jsnum list" where
  "number_cells [] = []"
| "number_cells (JNum n # vs) = (if n = NaN then number_cells vs else n # number_cells vs)"
| "number_cells (_ # vs) = number_cells vs"

text \<open>\<^verbatim>\<open>csvData.map((row) => row[key]).filter(...)\<close>\<close>

definition column_vals :: "string \<Rightarrow> obj list \<Rightarrow> jsnum list" where
  "column_vals key csvData = number_cells (map (\<lambda>row. js_get row key) csvData)"

text \<open>
  \<^verbatim>\<open>if (!vals.length) return 0; return vals.reduce((a, b) => a + b, 0) / vals.length;\<close>
\<close>

definition mean :: "jsnum list \<Rightarrow> jsnum" where
  "mean vals =
    (if length vals = 0 then Fin 0
     else fdiv_length (foldl fadd (Fin 0) vals) (length vals))"

definition pollutantMeans :: "obj list \<Rightarrow> jsnum list" where
  "pollutantMeans csvData =
    (if length csvData > 0 then map (\<lambda>key. mean (column_vals key csvData)) pollutantKeys
     else [])"

text \<open>An integer as a number cell.\<close>

definition int_num :: "int \<Rightarrow> jsnum" where
  "int_num z = Fin (of_int z)"

section \<open>The request payload (\<^verbatim>\<open>handleSubmit\<close>)\<close>

text \<open>
  \<^verbatim>\<open>parseFloat\<close>: leading white space is skipped, the longest prefix that is a decimal
  literal (sign, digits, fraction, exponent, or \<^verbatim>\<open>Infinity\<close>) is read and rounded, the
  rest of the string is ignored, and a string with no such prefix gives not-a-number.
  A character stands for the code unit of its number.
\<close>

definition is_ws :: "char \<Rightarrow> bool" where
  "is_ws c = (c \<in> {CHR 0x09, CHR 0x0A, CHR 0x0B, CHR 0x0C, CHR 0x0D, CHR 0x20, CHR 0xA0})"

definition pow10 :: "int \<Rightarrow> rat" where
  "pow10 e = (if 0 \<le> e then 10 ^ nat e else 1 / 10 ^ nat (- e))"

text \<open>The exponent part at the head of a string, 0 when there is none or it is incomplete.\<close>

fun exponent_part :: "string \<Rightarrow> int" where
  "exponent_part (e # rest) =
    (if e = CHR ''e'' \<or> e = CHR ''E'' then
       (case rest of
          s # ds \<Rightarrow>
            (if s = CHR ''-'' then
               (if takeWhile is_digit ds = [] then 0 else - int (digits_val (takeWhile is_digit ds)))
             else if s = CHR ''+'' then
               (if takeWhile is_digit ds = [] then 0 else int (digits_val (takeWhile is_digit ds)))
             else if takeWhile is_digit rest = [] then 0
             else int (digits_val (takeWhile is_digit rest)))
        | [] \<Rightarrow> 0)
     else 0)"
| "exponent_part [] = 0"

text \<open>The unsigned literal at the head of a string: its exact value, if there is one.\<close>

definition unsigned_literal :: "string \<Rightarrow> rat option" where
  "unsigned_literal u =
    (let ip = takeWhile is_digit u;
         r1 = dropWhile is_digit u;
         fp = (case r1 of c # r \<Rightarrow> if c = CHR ''.'' then takeWhile is_digit r else [] | [] \<Rightarrow> []);
         r2 = (case r1 of c # r \<Rightarrow> if c = CHR ''.'' then dropWhile is_digit r else r1 | [] \<Rightarrow> [])
     in if ip = [] \<and> fp = [] then None
        else Some (of_nat (digits_val (ip @ fp)) * pow10 (exponent_part r2 - int (length fp))))"

definition parseFloat :: "string \<Rightarrow> jsnum" where
  "parseFloat s =
    (let t = dropWhile is_ws s;
         neg = (case t of c # _ \<Rightarrow> c = CHR ''-'' | [] \<Rightarrow> False);
         u = (case t of c # r \<Rightarrow> if c = CHR ''-'' \<or> c = CHR ''+'' then r else t | [] \<Rightarrow> [])
     in if prefix ''Infinity'' u then (if neg then NegInf else PosInf)
        else (case unsigned_literal u of
                None \<Rightarrow> NaN
              | Some q \<Rightarrow> round_double (if neg then - q else q)))"

text \<open>The six fields, of the form (strings) and of the payload (values).\<close>

record 'a reading =
  pm25 :: 'a
  pm10 :: 'a
  so2 :: 'a
  no2 :: 'a
  co :: 'a
  o3 :: 'a

text \<open>\<^verbatim>\<open>parseFloat(x) || 0\<close>\<close>

definition parse_or_zero :: "string \<Rightarrow> jsval" where
  "parse_or_zero x = js_or (JNum (parseFloat x)) (JNum (Fin 0))"

definition payload :: "string reading \<Rightarrow> jsval reading" where
  "payload form =
    \<lparr>pm25 = parse_or_zero (pm25 form),
     pm10 = parse_or_zero (pm10 form),
     so2 = parse_or_zero (so2 form),
     no2 = parse_or_zero (no2 form),
     co = parse_or_zero (co form),
     o3 = parse_or_zero (o3 form)\<rparr>"

text \<open>The six fields of a reading in the order the payload lists them.\<close>

definition reading_fields :: "'a reading \<Rightarrow> 'a list" where
  "reading_fields r = [pm25 r, pm10 r, so2 r, no2 r, co r, o3 r]"

section \<open>The tabular parser and the upload handler (\<^verbatim>\<open>handleFileUpload\<close>)\<close>

text \<open>
  Modelled from the spec: the Tabular Parser. \<^verbatim>\<open>handleFileUpload\<close> hands the file to the
  PapaParse library (\<^verbatim>\<open>header\<close>, \<^verbatim>\<open>dynamicTyping\<close>, \<^verbatim>\<open>skipEmptyLines\<close>), whose code is
  not part of the sources. The definitions from \<open>split_on\<close> to \<open>parse_csv\<close> follow the
  contract of the specification: the text is comma-separated with a header line; a cell
  that reads as a finite number in decimal syntax is a number, an empty cell is missing, any
  other cell is a string; a line that is entirely empty is dropped and no other line is;
  each record maps the header's fields to the cells of its line.
\<close>

fun split_on :: "char \<Rightarrow> string \<Rightarrow> string list" where
  "split_on sep [] = [[]]"
| "split_on sep (c # cs) =
    (if c = sep then [] # split_on sep cs
     else (case split_on sep cs of p # ps \<Rightarrow> (c # p) # ps | [] \<Rightarrow> [[c]]))"

definition csv_lines :: "string \<Rightarrow> string list" where
  "csv_lines text = split_on (CHR 0x0A) text"

definition header_fields :: "string \<Rightarrow> string list" where
  "header_fields text = (case csv_lines text of h # _ \<Rightarrow> split_on (CHR '','') h | [] \<Rightarrow> [])"

definition data_lines :: "string \<Rightarrow> string list" where
  "data_lines text = (case csv_lines text of _ # ls \<Rightarrow> filter (\<lambda>l. l \<noteq> []) ls | [] \<Rightarrow> [])"

text \<open>What is left of a string after an exponent part at its head, if there is a complete one.\<close>

definition after_exponent :: "string \<Rightarrow> string" where
  "after_exponent r =
    (case r of
       e # rest \<Rightarrow>
         (if e = CHR ''e'' \<or> e = CHR ''E'' then
            (let ds = (case rest of
                         s # t \<Rightarrow> if s = CHR ''-'' \<or> s = CHR ''+'' then t else rest
                       | [] \<Rightarrow> [])
             in if takeWhile is_digit ds = [] then r else dropWhile is_digit ds)
          else r)
     | [] \<Rightarrow> [])"

text \<open>The whole string is one decimal literal.\<close>

definition is_decimal_literal :: "string \<Rightarrow> bool" where
  "is_decimal_literal s =
    (let u = (case s of c # r \<Rightarrow> if c = CHR ''-'' then r else s | [] \<Rightarrow> []);
         ip = takeWhile is_digit u;
         r1 = dropWhile is_digit u;
         fp = (case r1 of c # r \<Rightarrow> if c = CHR ''.'' then takeWhile is_digit r else [] | [] \<Rightarrow> []);
         r2 = (case r1 of c # r \<Rightarrow> if c = CHR ''.'' then dropWhile is_digit r else r1 | [] \<Rightarrow> [])
     in (ip \<noteq> [] \<or> fp \<noteq> []) \<and> after_exponent r2 = [])"

definition parse_cell :: "string \<Rightarrow> jsval" where
  "parse_cell s =
    (if s = [] then JNull
     else if is_decimal_literal s then
       (case parseFloat s of Fin q \<Rightarrow> JNum (Fin q) | _ \<Rightarrow> JStr s)
     else JStr s)"

definition parse_csv :: "string \<Rightarrow> obj list" where
  "parse_csv text =
    map (\<lambda>l. zip (header_fields text) (map parse_cell (split_on (CHR '','') l)))
      (data_lines text)"

text \<open>
  A valid text for the specification's property: there is at least one non-empty data
  line, and every non-empty data line has as many cells as the header has fields.
\<close>

definition valid_csv :: "string \<Rightarrow> bool" where
  "valid_csv text =
    (data_lines text \<noteq> []
     \<and> list_all (\<lambda>l. length (split_on (CHR '','') l) = length (header_fields text))
         (data_lines text))"

text \<open>
  The component state that the upload handler writes, and the handler itself as the code
  has it. Without a file nothing changes. Otherwise the error is cleared; the \<^verbatim>\<open>error\<close>
  callback reports an unreadable file and stores no rows; the \<^verbatim>\<open>complete\<close> callback
  stores the parsed rows, or reports an empty dataset and stores none.
\<close>

record csv_state =
  csvData :: "obj list"
  csvError :: string

datatype upload = NoFile | Unreadable | Readable string

definition on_complete :: "obj list \<Rightarrow> csv_state \<Rightarrow> csv_state" where
  "on_complete results_data s =
    (if length results_data = 0
     then s\<lparr>csvError := ''CSV is empty or invalid.'', csvData := []\<rparr>
     else s\<lparr>csvData := results_data\<rparr>)"

definition on_error :: "csv_state \<Rightarrow> csv_state" where
  "on_error s = s\<lparr>csvError := ''Could not read CSV file.'', csvData := []\<rparr>"

fun handleFileUpload :: "upload \<Rightarrow> csv_state \<Rightarrow> csv_state" where
  "handleFileUpload NoFile s = s"
| "handleFileUpload Unreadable s = on_error (s\<lparr>csvError := ''''\<rparr>)"
| "handleFileUpload (Readable text) s = on_complete (parse_csv text) (s\<lparr>csvError := ''''\<rparr>)"

section \<open>The statements of the specification that the code is compared with\<close>

text \<open>
  The time-series value as the specification words it: the \<^verbatim>\<open>AQI\<close> cell if numeric,
  otherwise the \<^verbatim>\<open>aqi\<close> cell if numeric, otherwise 0.
\<close>

definition spec_row_aqi :: "obj \<Rightarrow> jsval" where
  "spec_row_aqi r =
    (if is_number (js_get r ''AQI'') then js_get r ''AQI''
     else if is_number (js_get r ''aqi'') then js_get r ''aqi''
     else JNum (Fin 0))"

text \<open>
  The time-series label as the specification words it: the \<^verbatim>\<open>date\<close> cell whenever it is
  present and not missing, otherwise the synthetic label.
\<close>

definition spec_row_label :: "obj \<Rightarrow> nat \<Rightarrow> jsval" where
  "spec_row_label r i =
    (if \<not> nullish (js_get r ''date'') then js_get r ''date''
     else JStr (''Reading '' @ nat_to_string (i + 1)))"

text \<open>
  A payload field as the specification words it: the parsed value, 0 when the field is
  empty or not numeric, and 0 when the value is negative.
\<close>

definition spec_payload_field :: "string \<Rightarrow> jsval" where
  "spec_payload_field x =
    (case parseFloat x of
       NaN \<Rightarrow> JNum (Fin 0)
     | NegInf \<Rightarrow> JNum (Fin 0)
     | PosInf \<Rightarrow> JNum PosInf
     | Fin q \<Rightarrow> (if q < 0 then JNum (Fin 0) else JNum (Fin q)))"


section \<open>Properties of plain objects\<close>

lemma set_object_keys: "set (object_keys ob) = fst ` set ob"
  by (auto simp: object_keys_def)



section \<open>Properties of the AQI time series\<close>

lemma aqiLineData_length:
  "aqiLineData rows = Some v \<Longrightarrow>
     length (labels v) = length rows \<and> length (data v) = length rows"
  by (auto simp: aqiLineData_def split: if_splits)

lemma aqiLineData_data_nth:
  "aqiLineData rows = Some v \<Longrightarrow> i < length rows \<Longrightarrow> data v ! i = row_aqi (rows ! i)"
  by (auto simp: aqiLineData_def split: if_splits)

lemma aqiLineData_labels_nth:
  "aqiLineData rows = Some v \<Longrightarrow> i < length rows \<Longrightarrow>
     labels v ! i = row_label (rows ! i) i"
  by (auto simp: aqiLineData_def split: if_splits)

lemma aqiLineData_None_iff: "aqiLineData rows = None \<longleftrightarrow> rows = []"
  by (simp add: aqiLineData_def)

text \<open>
  C1. The claim: for a non-empty row sequence the AQI line view is absent exactly when
  neither \<^verbatim>\<open>AQI\<close> nor \<^verbatim>\<open>aqi\<close> is a header. The code tests only
  \<^verbatim>\<open>csvData.length > 0\<close>: on the one-row dataset with header \<^verbatim>\<open>foo,bar\<close> the view is
  present, labelled \<^verbatim>\<open>Reading 1\<close> and filled with 0, and the charts tab draws the line
  chart; its message ``No AQI column detected'' is never shown for a loaded dataset.
\<close>

theorem aqiLineData_without_aqi_column:
  "''AQI'' \<notin> header_set [[(''foo'', JNum (Fin 1)), (''bar'', JNum (Fin 2))]]
   \<and> ''aqi'' \<notin> header_set [[(''foo'', JNum (Fin 1)), (''bar'', JNum (Fin 2))]]
   \<and> aqiLineData [[(''foo'', JNum (Fin 1)), (''bar'', JNum (Fin 2))]]
       = Some \<lparr>labels = [JStr ''Reading 1''], data = [JNum (Fin 0)]\<rparr>
   \<and> charts_aqi_section [[(''foo'', JNum (Fin 1)), (''bar'', JNum (Fin 2))]]
       = LineChart \<lparr>labels = [JStr ''Reading 1''], data = [JNum (Fin 0)]\<rparr>"
  by (simp add: header_set_def set_object_keys aqiLineData_def charts_aqi_section_def
      row_label_def row_aqi_def js_or_def js_coalesce_def nullish_def js_get_def
      object_prototype_def nat_to_string.simps)

lemma row_aqi_cases:
  "row_aqi r =
     (if \<not> nullish (js_get r ''AQI'') then js_get r ''AQI''
      else if \<not> nullish (js_get r ''aqi'') then js_get r ''aqi''
      else JNum (Fin 0))"
  by (simp add: row_aqi_def js_coalesce_def)

lemma is_number_not_nullish: "is_number v \<Longrightarrow> \<not> nullish v"
  by (cases v) (simp_all add: nullish_def)

text \<open>
  C2, as the claim states it, fails: a row whose only AQI cell holds the string \<^verbatim>\<open>n/a\<close>
  contributes that string, not 0, because \<^verbatim>\<open>??\<close> replaces only \<^verbatim>\<open>null\<close> and
  \<^verbatim>\<open>undefined\<close>.
\<close>

theorem row_aqi_string_counterexample:
  "row_aqi [(''AQI'', JStr ''n/a'')] = JStr ''n/a''
   \<and> spec_row_aqi [(''AQI'', JStr ''n/a'')] = JNum (Fin 0)"
  by (simp add: row_aqi_def spec_row_aqi_def js_coalesce_def nullish_def js_get_def
      object_prototype_def)

text \<open>
  C2, amended. For every row of a loaded dataset, the value placed in the AQI time series is
  the row's \<^verbatim>\<open>AQI\<close> cell unless that cell is missing (\<^verbatim>\<open>null\<close> or absent), otherwise the
  row's \<^verbatim>\<open>aqi\<close> cell unless that is missing, otherwise 0. So a numeric \<^verbatim>\<open>AQI\<close> cell is
  taken, a numeric \<^verbatim>\<open>aqi\<close> cell is taken when \<^verbatim>\<open>AQI\<close> is missing, and 0 stands in when
  both are missing; a cell that is present but not numeric is passed on as it is.
\<close>

theorem aqi_series_value:
  assumes "aqiLineData rows = Some v" and "i < length rows"
  shows "data v ! i =
           (if \<not> nullish (js_get (rows ! i) ''AQI'') then js_get (rows ! i) ''AQI''
            else if \<not> nullish (js_get (rows ! i) ''aqi'') then js_get (rows ! i) ''aqi''
            else JNum (Fin 0))
         \<and> (is_number (js_get (rows ! i) ''AQI'') \<longrightarrow> data v ! i = js_get (rows ! i) ''AQI'')
         \<and> (nullish (js_get (rows ! i) ''AQI'') \<and> is_number (js_get (rows ! i) ''aqi'')
              \<longrightarrow> data v ! i = js_get (rows ! i) ''aqi'')
         \<and> (nullish (js_get (rows ! i) ''AQI'') \<and> nullish (js_get (rows ! i) ''aqi'')
              \<longrightarrow> data v ! i = JNum (Fin 0))"
proof -
  have d: "data v ! i = row_aqi (rows ! i)"
    using assms by (rule aqiLineData_data_nth)
  show ?thesis
    unfolding d row_aqi_cases by (simp add: is_number_not_nullish)
qed

theorem aqi_series_value_witness:
  "aqiLineData [[(''AQI'', JStr ''n/a'')], [(''AQI'', JNull), (''aqi'', JNum (Fin 7))]]
     = Some \<lparr>labels = [JStr ''Reading 1'', JStr ''Reading 2''],
             data = [JStr ''n/a'', JNum (Fin 7)]\<rparr>
   \<and> (1::nat) < length [[(''AQI'', JStr ''n/a'')], [(''AQI'', JNull), (''aqi'', JNum (Fin 7))]]
   \<and> data \<lparr>labels = [JStr ''Reading 1'', JStr ''Reading 2''],
           data = [JStr ''n/a'', JNum (Fin 7)]\<rparr> ! 1 = JNum (Fin 7)"
proof -
  let ?rows = "[[(''AQI'', JStr ''n/a'')], [(''AQI'', JNull), (''aqi'', JNum (Fin 7))]]"
  have a: "aqiLineData ?rows
     = Some \<lparr>labels = [JStr ''Reading 1'', JStr ''Reading 2''],
             data = [JStr ''n/a'', JNum (Fin 7)]\<rparr>"
    by (simp add: aqiLineData_def row_label_def row_aqi_def js_or_def js_coalesce_def nullish_def
        js_get_def object_prototype_def nat_to_string.simps upt_rec)
  have b: "(1::nat) < length ?rows"
    by simp
  from aqi_series_value [OF a b] a b show ?thesis
    by (simp add: js_get_def nullish_def object_prototype_def)
qed

text \<open>
  C4, as the claim states it, fails: a row whose \<^verbatim>\<open>date\<close> cell is the number 0 is present
  and not missing, yet its label is the synthetic \<^verbatim>\<open>Reading 1\<close>, because \<^verbatim>\<open>||\<close> replaces
  every falsy value.
\<close>

theorem row_label_zero_date_counterexample:
  "row_label [(''date'', JNum (Fin 0))] 0 = JStr ''Reading 1''
   \<and> spec_row_label [(''date'', JNum (Fin 0))] 0 = JNum (Fin 0)"
  by (simp add: row_label_def spec_row_label_def js_or_def nullish_def js_get_def
      nat_to_string.simps)

text \<open>
  C4, amended. For every row of a loaded dataset, the label placed in the AQI time series is
  the row's \<^verbatim>\<open>date\<close> cell whenever that cell is truthy (so not missing, and not one of
  the number 0, the empty string, \<^verbatim>\<open>false\<close> or not-a-number), and otherwise the synthetic
  label \<^verbatim>\<open>Reading\<close> followed by the 1-based index of the row.
\<close>

theorem aqi_series_label:
  assumes "aqiLineData rows = Some v" and "i < length rows"
  shows "labels v ! i =
           (if truthy (js_get (rows ! i) ''date'') then js_get (rows ! i) ''date''
            else JStr (''Reading '' @ nat_to_string (i + 1)))"
  using aqiLineData_labels_nth [OF assms] by (simp add: row_label_def js_or_def)

theorem aqi_series_label_witness:
  "aqiLineData [[(''date'', JStr ''2024-01-01''), (''AQI'', JNum (Fin 42))],
                [(''date'', JStr ''''), (''AQI'', JNum (Fin 5))]]
     = Some \<lparr>labels = [JStr ''2024-01-01'', JStr ''Reading 2''],
             data = [JNum (Fin 42), JNum (Fin 5)]\<rparr>
   \<and> (1::nat) < length [[(''date'', JStr ''2024-01-01''), (''AQI'', JNum (Fin 42))],
                        [(''date'', JStr ''''), (''AQI'', JNum (Fin 5))]]
   \<and> labels \<lparr>labels = [JStr ''2024-01-01'', JStr ''Reading 2''],
             data = [JNum (Fin 42), JNum (Fin 5)]\<rparr> ! 1 = JStr ''Reading 2''"
proof -
  let ?rows = "[[(''date'', JStr ''2024-01-01''), (''AQI'', JNum (Fin 42))],
                [(''date'', JStr ''''), (''AQI'', JNum (Fin 5))]]"
  have a: "aqiLineData ?rows
     = Some \<lparr>labels = [JStr ''2024-01-01'', JStr ''Reading 2''],
             data = [JNum (Fin 42), JNum (Fin 5)]\<rparr>"
    by (simp add: aqiLineData_def row_label_def row_aqi_def js_or_def js_coalesce_def nullish_def
        js_get_def object_prototype_def nat_to_string.simps upt_rec)
  have b: "(1::nat) < length ?rows"
    by simp
  from aqi_series_label [OF a b] a b show ?thesis
    by (simp add: js_get_def nat_to_string.simps)
qed

section \<open>Properties of the category badge\<close>

lemma getBadgeColor_categories:
  "getBadgeColor ''Good'' = JStr ''bg-green-500''"
  "getBadgeColor ''Satisfactory'' = JStr ''bg-lime-500''"
  "getBadgeColor ''Moderate'' = JStr ''bg-yellow-400''"
  "getBadgeColor ''Poor'' = JStr ''bg-orange-500''"
  "getBadgeColor ''Very Poor'' = JStr ''bg-red-600''"
  "getBadgeColor ''Severe'' = JStr ''bg-purple-700''"
  "getBadgeColor '''' = JStr ''bg-slate-700''"
  by (simp_all add: getBadgeColor_def js_or_def js_get_def badge_map_def object_prototype_def)

lemma getBadgeColor_default:
  "category \<notin> set (object_keys badge_map) \<Longrightarrow>
   category \<notin> set (object_keys object_prototype) \<Longrightarrow>
   getBadgeColor category = JStr ''bg-slate-700''"
  by (simp add: getBadgeColor_def js_or_def js_get_def badge_map_def object_prototype_def
      set_object_keys)

text \<open>
  C10. The claim: every string other than the six categories is mapped to the default
  class \<^verbatim>\<open>bg-slate-700\<close>. The lookup table is an object literal, so a string that names a
  member of \<^verbatim>\<open>Object.prototype\<close> finds that member, which is truthy, and the default is
  not taken: for \<^verbatim>\<open>constructor\<close>, which is none of the six categories, the result is the
  \<^verbatim>\<open>Object\<close> function and not a class name.
\<close>

theorem getBadgeColor_inherited_key:
  "''constructor'' \<notin> set (object_keys badge_map)
   \<and> getBadgeColor ''constructor'' = JObj ''Object''"
  by (simp add: getBadgeColor_def js_or_def js_get_def badge_map_def object_prototype_def
      set_object_keys)

section \<open>Properties of the calculation lifecycle\<close>

lemma submit_end_failure:
  "\<not> succeeded outcome \<Longrightarrow>
     submit_end outcome s = s\<lparr>calcError := failure_message, loading := False\<rparr>"
  by (cases outcome rule: succeeded.cases) (simp_all add: submit_end_def)

lemma submit_end_success:
  "submit_end (Response True (Some d)) s = s\<lparr>result := Some d, loading := False\<rparr>"
  by (simp add: submit_end_def)

lemma succeeded_cases: "succeeded outcome \<Longrightarrow> \<exists>d. outcome = Response True (Some d)"
  by (cases outcome rule: succeeded.cases) simp_all

lemma failure_message_nonempty: "failure_message \<noteq> ''''"
  by (simp add: failure_message_def)

text \<open>
  While a request is in flight nothing is displayed; whenever the failure message is set, no
  result is held.
\<close>

lemma reachable_invariant:
  "reachable s \<Longrightarrow>
     (loading s \<longrightarrow> result s = None \<and> calcError s = '''')
     \<and> (calcError s \<noteq> '''' \<longrightarrow> result s = None)"
proof (induction rule: reachable.induct)
  case init
  show ?case by simp
next
  case (submit s)
  show ?case by (simp add: submit_begin_def)
next
  case (resolve s outcome)
  show ?case
  proof (cases "succeeded outcome")
    case True
    then obtain d where "outcome = Response True (Some d)"
      using succeeded_cases by blast
    with resolve show ?thesis by (simp add: submit_end_success)
  next
    case False
    with resolve show ?thesis by (simp add: submit_end_failure)
  qed
qed

text \<open>
  C8. A submission whose fetch rejects, whose response is not \<^verbatim>\<open>ok\<close>, or whose body does
  not decode, ends with the failure message set, \<^verbatim>\<open>loading\<close> false and no score result,
  whatever the state before it held: the lifecycle is \<open>Failed\<close>. The result is cleared by
  the synchronous start of the request and is set again only by a successful response. In
  every state that submissions and responses can reach, a set failure message means that no
  result is held, so the two are never displayed together.
\<close>

theorem failed_submission_retains_no_result:
  "(\<not> succeeded outcome \<longrightarrow>
      handleSubmit s outcome = \<lparr>result = None, loading = False, calcError = failure_message\<rparr>
      \<and> lifecycle_of (handleSubmit s outcome) = Failed)
   \<and> result (submit_begin s) = None
   \<and> (result (handleSubmit s outcome) \<noteq> None \<longrightarrow> succeeded outcome)
   \<and> (reachable t \<longrightarrow> calcError t \<noteq> '''' \<longrightarrow> result t = None)"
proof (intro conjI impI)
  assume f: "\<not> succeeded outcome"
  show h: "handleSubmit s outcome
             = \<lparr>result = None, loading = False, calcError = failure_message\<rparr>"
    by (simp add: handleSubmit_def submit_end_failure [OF f] submit_begin_def)
  show "lifecycle_of (handleSubmit s outcome) = Failed"
    unfolding h by (simp add: lifecycle_of_def failure_message_nonempty)
next
  show "result (submit_begin s) = None"
    by (simp add: submit_begin_def)
next
  assume r: "result (handleSubmit s outcome) \<noteq> None"
  show "succeeded outcome"
  proof (rule ccontr)
    assume "\<not> succeeded outcome"
    then have "result (handleSubmit s outcome) = None"
      by (simp add: handleSubmit_def submit_end_failure submit_begin_def)
    with r show False by simp
  qed
next
  assume "reachable t" and "calcError t \<noteq> ''''"
  then show "result t = None"
    using reachable_invariant by blast
qed

theorem failed_submission_retains_no_result_witness:
  "\<not> succeeded (Response False (None :: string option))
   \<and> handleSubmit \<lparr>result = Some ''Good'', loading = False, calcError = ''''\<rparr>
         (Response False None)
       = \<lparr>result = None, loading = False, calcError = failure_message\<rparr>
   \<and> lifecycle_of (handleSubmit \<lparr>result = Some ''Good'', loading = False, calcError = ''''\<rparr>
         (Response False None)) = Failed
   \<and> reachable (handleSubmit \<lparr>result = None :: string option, loading = False,
         calcError = ''''\<rparr> TransportFailure)
   \<and> calcError (handleSubmit \<lparr>result = None :: string option, loading = False,
         calcError = ''''\<rparr> TransportFailure) \<noteq> ''''
   \<and> result (handleSubmit \<lparr>result = None :: string option, loading = False,
         calcError = ''''\<rparr> TransportFailure) = None"
proof -
  let ?s0 = "\<lparr>result = None :: string option, loading = False, calcError = ''''\<rparr>"
  have r: "reachable (handleSubmit ?s0 TransportFailure)"
    unfolding handleSubmit_def
    by (rule reachable.resolve [OF reachable.submit [OF reachable.init]])
       (simp_all add: submit_begin_def)
  have c: "calcError (handleSubmit ?s0 TransportFailure) \<noteq> ''''"
    by (simp add: handleSubmit_def submit_end_def submit_begin_def failure_message_def)
  have n: "\<not> succeeded (Response False (None :: string option))"
    by simp
  from failed_submission_retains_no_result
         [of "Response False None"
             "\<lparr>result = Some ''Good'', loading = False, calcError = ''''\<rparr>"
             "handleSubmit ?s0 TransportFailure"]
       r c n
  show ?thesis by (simp add: lifecycle_of_def failure_message_def)
qed

section \<open>Properties of the data table\<close>


lemma js_get_absent:
  assumes "h \<notin> set (object_keys row)" and "h \<notin> set (object_keys object_prototype)"
  shows "js_get row h = JUndefined"
proof -
  from assms(1) have "map_of row h = None"
    by (simp add: set_object_keys map_of_eq_None_iff)
  moreover from assms(2) have "map_of object_prototype h = None"
    by (simp add: set_object_keys map_of_eq_None_iff)
  ultimately show ?thesis by (simp add: js_get_def)
qed









section \<open>Properties of rounding\<close>

lemma pow2_powi: "pow2 e = 2 powi e"
  by (simp add: pow2_def power_int_def power_one_over [symmetric] inverse_eq_divide)

lemma pow2_pos: "0 < pow2 e"
  by (simp add: pow2_powi)

lemma pow2_add: "pow2 (a + b) = pow2 a * pow2 b"
  by (simp add: pow2_powi power_int_add)

lemma pow2_mono: "a \<le> b \<Longrightarrow> pow2 a \<le> pow2 b"
  by (simp add: pow2_powi power_int_increasing)

lemma pow2_strict_mono: "a < b \<Longrightarrow> pow2 a < pow2 b"
  by (simp add: pow2_powi power_int_strict_increasing)

lemma pow2_of_nat: "pow2 (int n) = 2 ^ n"
  by (simp add: pow2_def)

lemma bitlen_rat_bounds:
  assumes "0 < p"
  shows "pow2 (bitlen p - 1) \<le> of_int p" and "of_int p < pow2 (bitlen p)"
proof -
  from assms have b: "1 \<le> bitlen p"
    using bitlen_eq_zero_iff [of p] bitlen_nonneg [of p] by linarith
  from bitlen_bounds [OF assms]
  have "(of_int (2 ^ nat (bitlen p - 1)) :: rat) \<le> of_int p"
    and "(of_int p :: rat) < of_int (2 ^ nat (bitlen p))"
    by (simp_all only: of_int_le_iff of_int_less_iff)
  with b show "pow2 (bitlen p - 1) \<le> of_int p" and "of_int p < pow2 (bitlen p)"
    by (simp_all add: pow2_def)
qed

lemma floor_log2_correct:
  assumes "0 < q"
  shows "pow2 (floor_log2 q) \<le> q \<and> q < pow2 (floor_log2 q + 1)"
proof -
  obtain p d where pd: "quotient_of q = (p, d)"
    by (cases "quotient_of q")
  have dpos: "0 < d"
    using quotient_of_denom_pos [OF pd] .
  have q: "q = of_int p / of_int d"
    using quotient_of_div [OF pd] .
  have ppos: "0 < p"
    using assms dpos q by (simp add: zero_less_divide_iff)
  define k where "k = bitlen p - bitlen d"
  have fl: "floor_log2 q = (if pow2 k \<le> q then k else k - 1)"
    by (simp add: floor_log2_def pd k_def)
  have "of_int p < pow2 (bitlen p)"
    using bitlen_rat_bounds(2) [OF ppos] .
  also have "pow2 (bitlen p) = pow2 (k + 1) * pow2 (bitlen d - 1)"
    by (simp add: pow2_add [symmetric] k_def)
  also have "\<dots> \<le> pow2 (k + 1) * of_int d"
    using bitlen_rat_bounds(1) [OF dpos] pow2_pos [of "k + 1"] by simp
  finally have up: "q < pow2 (k + 1)"
    using dpos by (simp add: q field_simps)
  have "pow2 (k - 1) * of_int d < pow2 (k - 1) * pow2 (bitlen d)"
    using bitlen_rat_bounds(2) [OF dpos] pow2_pos [of "k - 1"] by simp
  also have "\<dots> = pow2 (bitlen p - 1)"
    by (simp add: pow2_add [symmetric] k_def)
  also have "\<dots> \<le> of_int p"
    using bitlen_rat_bounds(1) [OF ppos] .
  finally have lo: "pow2 (k - 1) < q"
    using dpos by (simp add: q field_simps)
  show ?thesis
  proof (cases "pow2 k \<le> q")
    case True
    with up show ?thesis by (simp add: fl)
  next
    case False
    with lo show ?thesis by (simp add: fl)
  qed
qed

lemma floor_log2_eqI:
  assumes "pow2 k \<le> q" and "q < pow2 (k + 1)"
  shows "floor_log2 q = k"
proof -
  have qpos: "0 < q"
    using pow2_pos [of k] assms(1) by linarith
  let ?j = "floor_log2 q"
  from floor_log2_correct [OF qpos] have j: "pow2 ?j \<le> q" "q < pow2 (?j + 1)"
    by simp_all
  have "\<not> ?j < k"
  proof
    assume "?j < k"
    then have "pow2 (?j + 1) \<le> pow2 k" by (intro pow2_mono) simp
    with j(2) assms(1) show False by linarith
  qed
  moreover have "\<not> k < ?j"
  proof
    assume "k < ?j"
    then have "pow2 (k + 1) \<le> pow2 ?j" by (intro pow2_mono) simp
    with j(1) assms(2) show False by linarith
  qed
  ultimately show ?thesis by linarith
qed

lemma round_half_even_of_int: "round_half_even (of_int w) = w"
  by (simp add: round_half_even_def)

text \<open>Rounding once the binade of the argument is known.\<close>

lemma round_double_binade:
  assumes "pow2 k \<le> \<bar>q\<bar>" and "\<bar>q\<bar> < pow2 (k + 1)"
  shows "round_double q =
    (let e = max (k - 52) (- 1074);
         v = of_int (round_half_even (\<bar>q\<bar> / pow2 e)) * pow2 e
     in if pow2 1024 \<le> v then (if q < 0 then NegInf else PosInf)
        else Fin (if q < 0 then - v else v))"
proof -
  have "q \<noteq> 0"
    using pow2_pos [of k] assms(1) by auto
  then show ?thesis
    by (simp add: round_double_def floor_log2_eqI [OF assms])
qed

lemma round_double_int_pos:
  assumes "0 < z" and "z \<le> 2 ^ 53"
  shows "round_double (of_int z) = Fin (of_int z)"
proof (cases "z = 2 ^ 53")
  case True
  have "round_double (2 ^ 53) = Fin (2 ^ 53)"
    by (subst round_double_binade [of 53]) (simp_all add: pow2_def round_half_even_def Let_def)
  with True show ?thesis by simp
next
  case False
  with assms have lt: "z < 2 ^ 53" by simp
  define k where "k = bitlen z - 1"
  have k0: "0 \<le> k"
    using assms(1) bitlen_eq_zero_iff [of z] bitlen_nonneg [of z] by (simp add: k_def)
  have "bitlen z \<le> 53"
    using lt by (simp add: bitlen_le_iff_power)
  then have k52: "k \<le> 52" by (simp add: k_def)
  have b1: "pow2 k \<le> \<bar>of_int z\<bar>" and b2: "\<bar>of_int z :: rat\<bar> < pow2 (k + 1)"
    using bitlen_rat_bounds [OF assms(1)] assms(1) by (simp_all add: k_def)
  define n where "n = nat (52 - k)"
  have e: "max (k - 52) (- 1074) = - int n"
    using k0 k52 by (simp add: n_def)
  have p: "pow2 (- int n) = 1 / 2 ^ n"
    by (cases "n = 0") (simp_all add: pow2_def)
  have m: "(of_int z :: rat) / pow2 (- int n) = of_int (z * 2 ^ n)"
    by (simp add: p)
  have small: "\<not> pow2 1024 \<le> (of_int z :: rat)"
  proof -
    have "(of_int z :: rat) < of_int (2 ^ 53)"
      using lt by (simp only: of_int_less_iff)
    also have "\<dots> < pow2 1024" by (simp add: pow2_def)
    finally show ?thesis by simp
  qed
  have v: "of_int (round_half_even ((of_int z :: rat) / pow2 (- int n))) * pow2 (- int n)
             = (of_int z :: rat)"
    unfolding m round_half_even_of_int by (simp add: p)
  show ?thesis
    using assms(1) small
    by (simp add: round_double_binade [OF b1 b2] e v Let_def)
qed

lemma round_double_uminus:
  "round_double (- q) =
     (case round_double q of
        Fin v \<Rightarrow> Fin (- v) | PosInf \<Rightarrow> NegInf | NegInf \<Rightarrow> PosInf | NaN \<Rightarrow> NaN)"
  by (simp add: round_double_def Let_def)

lemma round_double_int:
  assumes "\<bar>z\<bar> \<le> 2 ^ 53"
  shows "round_double (of_int z) = Fin (of_int z)"
proof -
  consider "z = 0" | "0 < z" | "z < 0" by linarith
  then show ?thesis
  proof cases
    case 1
    then show ?thesis by (simp add: round_double_def)
  next
    case 2
    with assms show ?thesis by (simp add: round_double_int_pos)
  next
    case 3
    with assms have "round_double (of_int (- z)) = Fin (of_int (- z))"
      by (intro round_double_int_pos) simp_all
    then show ?thesis
      using round_double_uminus [of "of_int (- z)"] by simp
  qed
qed

lemma floor_numeral_divide_rat:
  "\<lfloor>numeral a / numeral b :: rat\<rfloor> = numeral a div numeral b"
  by (metis floor_divide_of_int_eq of_int_numeral)

section \<open>Properties of the column means\<close>

lemma sum_abs_nonneg: "0 \<le> (\<Sum>x\<leftarrow>xs. \<bar>x :: int\<bar>)"
  by (induction xs) simp_all

lemma fadd_int:
  "\<bar>a + b\<bar> \<le> 2 ^ 53 \<Longrightarrow> fadd (int_num a) (int_num b) = int_num (a + b)"
  using round_double_int [of "a + b"] by (simp add: int_num_def)

text \<open>Integer cells add up exactly as long as the running sum stays within \<open>2 ^ 53\<close>.\<close>

lemma foldl_fadd_int:
  "\<bar>acc\<bar> + (\<Sum>x\<leftarrow>xs. \<bar>x\<bar>) \<le> 2 ^ 53 \<Longrightarrow>
     foldl fadd (int_num acc) (map int_num xs) = int_num (acc + sum_list xs)"
proof (induction xs arbitrary: acc)
  case Nil
  show ?case by simp
next
  case (Cons x xs)
  from Cons.prems have 1: "\<bar>acc + x\<bar> \<le> 2 ^ 53"
    using sum_abs_nonneg [of xs] by simp
  from Cons.prems have 2: "\<bar>acc + x\<bar> + (\<Sum>x\<leftarrow>xs. \<bar>x\<bar>) \<le> 2 ^ 53"
    using sum_abs_nonneg [of xs] by simp
  show ?case
    using Cons.IH [OF 2] by (simp add: fadd_int [OF 1] add.assoc)
qed

lemma mean_int:
  assumes "(\<Sum>x\<leftarrow>xs. \<bar>x\<bar>) \<le> 2 ^ 53"
  shows "mean (map int_num xs) =
    (if xs = [] then Fin 0 else round_double (of_int (sum_list xs) / of_nat (length xs)))"
proof -
  have "foldl fadd (int_num 0) (map int_num xs) = int_num (0 + sum_list xs)"
    using assms by (intro foldl_fadd_int) simp
  then have "foldl fadd (Fin 0) (map int_num xs) = Fin (of_int (sum_list xs))"
    by (simp add: int_num_def)
  then show ?thesis
    by (simp add: mean_def)
qed

lemma mset_sum_abs:
  assumes "mset xs = mset ys"
  shows "(\<Sum>x\<leftarrow>xs. \<bar>x :: int\<bar>) = (\<Sum>x\<leftarrow>ys. \<bar>x\<bar>)"
proof -
  from assms have "mset (map abs xs) = mset (map abs ys)"
    by (metis mset_map)
  then show ?thesis
    by (metis sum_mset_sum_list)
qed

lemma mean_int_permutation:
  assumes "mset xs = mset ys" and "(\<Sum>x\<leftarrow>xs. \<bar>x\<bar>) \<le> 2 ^ 53"
  shows "mean (map int_num xs) = mean (map int_num ys)"
proof -
  have s: "sum_list xs = sum_list ys"
    using assms(1) by (metis sum_mset_sum_list)
  have l: "length xs = length ys"
    using assms(1) by (metis size_mset)
  have e: "xs = [] \<longleftrightarrow> ys = []"
    using l by auto
  have b: "(\<Sum>x\<leftarrow>ys. \<bar>x\<bar>) \<le> 2 ^ 53"
    using assms mset_sum_abs [OF assms(1)] by simp
  show ?thesis
    by (simp add: mean_int [OF assms(2)] mean_int [OF b] s l e)
qed

lemma mean_Nil: "mean [] = Fin 0"
  by (simp add: mean_def)

lemma mean_single: "is_double x \<Longrightarrow> mean [x] = x"
  by (cases x) (simp_all add: mean_def)

lemma mean_1_3: "mean [Fin 1, Fin 3] = Fin 2"
proof -
  have "mean (map int_num [1, 3])
          = round_double (of_int (sum_list [1, 3]) / of_nat (length [1, 3 :: int]))"
    using mean_int [of "[1, 3]"] by simp
  then show ?thesis
    using round_double_int [of 2] by (simp add: int_num_def)
qed

lemma number_cells_filter:
  "map JNum (number_cells vs) = filter (\<lambda>v. is_number v \<and> v \<noteq> JNum NaN) vs"
  by (induction vs rule: number_cells.induct) simp_all

text \<open>
  C5, as the claim states it, fails in its third part. The cells \<open>2 ^ 53 - 1\<close>, 1, 1 and 1
  are doubles. Summed from the left in this order, the second and the third 1 are lost to
  rounding; summed with the ones first, the sum is exact; the two means differ.
\<close>

theorem mean_permutation_counterexample:
  "is_double (Fin 9007199254740991) \<and> is_double (Fin 1)
   \<and> mset [Fin 9007199254740991, Fin 1, Fin 1, Fin 1]
       = mset [Fin 1, Fin 1, Fin 1, Fin 9007199254740991]
   \<and> mean [Fin 9007199254740991, Fin 1, Fin 1, Fin 1] = Fin 2251799813685248
   \<and> mean [Fin 1, Fin 1, Fin 1, Fin 9007199254740991] = Fin (4503599627370497 / 2)"
proof -
  have a: "round_double 9007199254740991 = Fin 9007199254740991"
    using round_double_int [of 9007199254740991] by simp
  have a1: "round_double 9007199254740992 = Fin 9007199254740992"
    using round_double_int [of 9007199254740992] by simp
  have b: "round_double 1 = Fin 1"
    using round_double_int [of 1] by simp
  have c: "round_double 2 = Fin 2"
    using round_double_int [of 2] by simp
  have c3: "round_double 3 = Fin 3"
    using round_double_int [of 3] by simp
  have d: "round_double 9007199254740993 = Fin 9007199254740992"
    by (simp add: round_double_binade [of 53] pow2_def round_half_even_def Let_def
        floor_numeral_divide_rat)
  have e: "round_double 9007199254740994 = Fin 9007199254740994"
    by (simp add: round_double_binade [of 53] pow2_def round_half_even_def Let_def
        floor_numeral_divide_rat)
  have f: "round_double 2251799813685248 = Fin 2251799813685248"
    using round_double_int [of 2251799813685248] by simp
  have g: "round_double (4503599627370497 / 2) = Fin (4503599627370497 / 2)"
    by (simp add: round_double_binade [of 51] pow2_def round_half_even_def Let_def
        floor_numeral_divide_rat)
  show ?thesis
    by (simp add: mean_def a a1 b c c3 d e f g)
qed

lemma fadd_commute: "fadd a b = fadd b a"
  by (cases a; cases b) (simp_all add: add.commute)

lemma fadd_zero_left: "is_double x \<Longrightarrow> fadd (Fin 0) x = x"
  by (cases x) simp_all

lemma mean_pair: "is_double x \<Longrightarrow> is_double y \<Longrightarrow> mean [x, y] = mean [y, x]"
  by (simp add: mean_def fadd_zero_left fadd_commute [of x y])

text \<open>
  C5, amended. The mean of the empty sequence is 0; the mean of a one-element sequence
  \<open>[x]\<close> is \<open>x\<close>; and the mean is invariant under every permutation of a sequence of at
  most two elements, and of a sequence of integers whose absolute values sum to at most
  \<open>2 ^ 53\<close>, where every partial sum is exact. (For other sequences the sum is accumulated
  from the left with rounding at each step, and nothing is said about reordering.)
\<close>

theorem mean_properties:
  "mean [] = Fin 0
   \<and> (is_double x \<longrightarrow> mean [x] = x)
   \<and> (is_double x \<and> is_double y \<longrightarrow> mean [x, y] = mean [y, x])
   \<and> (mset xs = mset ys \<and> (\<Sum>x\<leftarrow>xs. \<bar>x\<bar>) \<le> 2 ^ 53
        \<longrightarrow> mean (map int_num xs) = mean (map int_num ys))"
  using mean_Nil mean_single mean_pair mean_int_permutation by blast

theorem mean_properties_witness:
  "is_double (Fin (5 / 2)) \<and> is_double (Fin 1)
   \<and> mean [Fin (5 / 2)] = Fin (5 / 2)
   \<and> mean [Fin (5 / 2), Fin 1] = mean [Fin 1, Fin (5 / 2)]
   \<and> mset [3, 1, 2 :: int] = mset [1, 2, 3]
   \<and> (\<Sum>x\<leftarrow>[3, 1, 2 :: int]. \<bar>x\<bar>) \<le> 2 ^ 53
   \<and> mean (map int_num [3, 1, 2]) = mean (map int_num [1, 2, 3])"
proof -
  have d: "is_double (Fin (5 / 2))"
    by (simp add: round_double_binade [of 1] pow2_def round_half_even_def Let_def
        floor_numeral_divide_rat)
  have o: "is_double (Fin 1)"
    using round_double_int [of 1] by simp
  have m: "mset [3, 1, 2 :: int] = mset [1, 2, 3]"
    by simp
  have s: "(\<Sum>x\<leftarrow>[3, 1, 2 :: int]. \<bar>x\<bar>) \<le> 2 ^ 53"
    by simp
  from mean_properties [of "Fin (5 / 2)" "Fin 1" "[3, 1, 2]" "[1, 2, 3]"] d o m s
  show ?thesis
    by blast
qed

lemma pollutantMeans_eq:
  "pollutantMeans rows =
     (if rows = [] then [] else map (\<lambda>key. mean (column_vals key rows)) pollutantKeys)"
  by (simp add: pollutantMeans_def)

text \<open>
  C6. Projecting a column keeps exactly the cells that are numbers (and not not-a-number),
  in their order in the row sequence: the projection is the filtered column, a subsequence
  of it, so nothing is filled in for an excluded cell; the mean of each pollutant column is
  taken over this projection. On the rows \<^verbatim>\<open>{X:1}\<close>, \<^verbatim>\<open>{X:"a"}\<close>, \<^verbatim>\<open>{X:3}\<close> the
  projection of \<^verbatim>\<open>X\<close> is \<open>[1, 3]\<close> and its mean is 2.
\<close>

theorem column_projection_keeps_numbers_in_order:
  "map JNum (column_vals key rows)
     = filter (\<lambda>v. is_number v \<and> v \<noteq> JNum NaN) (map (\<lambda>row. js_get row key) rows)
   \<and> subseq (map JNum (column_vals key rows)) (map (\<lambda>row. js_get row key) rows)
   \<and> pollutantMeans rows
       = (if rows = [] then [] else map (\<lambda>key. mean (column_vals key rows)) pollutantKeys)
   \<and> column_vals ''X'' [[(''X'', JNum (Fin 1))], [(''X'', JStr ''a'')], [(''X'', JNum (Fin 3))]]
       = [Fin 1, Fin 3]
   \<and> mean (column_vals ''X''
        [[(''X'', JNum (Fin 1))], [(''X'', JStr ''a'')], [(''X'', JNum (Fin 3))]]) = Fin 2"
proof -
  have 1: "map JNum (column_vals key rows)
     = filter (\<lambda>v. is_number v \<and> v \<noteq> JNum NaN) (map (\<lambda>row. js_get row key) rows)"
    unfolding column_vals_def by (rule number_cells_filter)
  have 2: "subseq (map JNum (column_vals key rows)) (map (\<lambda>row. js_get row key) rows)"
    unfolding 1 by (rule subseq_filter_left)
  have 3: "column_vals ''X''
             [[(''X'', JNum (Fin 1))], [(''X'', JStr ''a'')], [(''X'', JNum (Fin 3))]]
       = [Fin 1, Fin 3]"
    by (simp add: column_vals_def js_get_def)
  show ?thesis
    unfolding 3 using 1 2 mean_1_3 pollutantMeans_eq [of rows] by simp
qed

section \<open>Properties of the request payload\<close>

lemma parseFloat_empty: "parseFloat '''' = NaN"
  by (simp add: parseFloat_def unsigned_literal_def)

lemma parse_or_zero_eq:
  "parse_or_zero x = JNum (if parseFloat x = NaN then Fin 0 else parseFloat x)"
  by (simp add: parse_or_zero_def js_or_def)

lemma parseFloat_minus_5: "parseFloat ''-5'' = Fin (- 5)"
  using round_double_int [of "- 5"]
  by (simp add: parseFloat_def unsigned_literal_def is_ws_def is_digit_def digits_val_def
      digit_val_def pow10_def)

lemma parseFloat_12_5: "parseFloat ''12.5'' = Fin (25 / 2)"
  by (simp add: parseFloat_def unsigned_literal_def is_ws_def is_digit_def digits_val_def
      digit_val_def pow10_def round_double_binade [of 3] pow2_def round_half_even_def Let_def
      floor_numeral_divide_rat)

lemma takeWhile_digit_Nil: "\<forall>c \<in> set u. \<not> is_digit c \<Longrightarrow> takeWhile is_digit u = []"
  by (cases u) simp_all

lemma unsigned_literal_None_if_no_digit:
  assumes "\<forall>c \<in> set u. \<not> is_digit c"
  shows "unsigned_literal u = None"
proof -
  have ip: "takeWhile is_digit u = []"
    using assms by (cases u) simp_all
  have r1: "dropWhile is_digit u = u"
    using assms by (cases u) simp_all
  have fp: "(case u of c # r \<Rightarrow> if c = CHR ''.'' then takeWhile is_digit r else []
             | [] \<Rightarrow> []) = []"
    using assms by (cases u) (auto simp: takeWhile_digit_Nil)
  show ?thesis
    by (simp add: unsigned_literal_def ip r1 fp Let_def)
qed

text \<open>A string with no digit and no letter \<^verbatim>\<open>I\<close> has no numeric prefix.\<close>

lemma parseFloat_NaN_if_no_digit:
  assumes "\<forall>c \<in> set x. \<not> is_digit c \<and> c \<noteq> CHR ''I''"
  shows "parseFloat x = NaN"
proof -
  define t where "t = dropWhile is_ws x"
  define u where
    "u = (case t of c # r \<Rightarrow> if c = CHR ''-'' \<or> c = CHR ''+'' then r else t | [] \<Rightarrow> [])"
  have "set t \<subseteq> set x"
    by (auto simp: t_def dest: set_dropWhileD)
  moreover have "set u \<subseteq> set t"
    by (auto simp: u_def split: list.splits)
  ultimately have su: "\<forall>c \<in> set u. \<not> is_digit c \<and> c \<noteq> CHR ''I''"
    using assms by blast
  then have n: "unsigned_literal u = None"
    by (simp add: unsigned_literal_None_if_no_digit)
  have p: "\<not> prefix ''Infinity'' u"
    using su by (cases u) auto
  show ?thesis
    unfolding parseFloat_def Let_def t_def [symmetric] u_def [symmetric]
    using n p by simp
qed

lemma reading_fields_payload:
  "reading_fields (payload form) = map parse_or_zero (reading_fields form)"
  by (simp add: reading_fields_def payload_def)

text \<open>
  C3, as the claim states it, fails: a form whose \<^verbatim>\<open>pm25\<close> field holds \<^verbatim>\<open>-5\<close> submits
  \<open>-5\<close> for \<^verbatim>\<open>pm25\<close>, where the claim has a negative value default to 0.
\<close>

theorem payload_negative_counterexample:
  "pm25 (payload \<lparr>pm25 = ''-5'', pm10 = '''', so2 = '''', no2 = '''', co = '''', o3 = ''''\<rparr>)
     = JNum (Fin (- 5))
   \<and> spec_payload_field ''-5'' = JNum (Fin 0)"
  by (simp add: payload_def parse_or_zero_eq parseFloat_minus_5 spec_payload_field_def)

text \<open>
  C3, amended. For every state of the six-field form, the payload assigns each of
  \<^verbatim>\<open>pm25\<close>, \<^verbatim>\<open>pm10\<close>, \<^verbatim>\<open>so2\<close>, \<^verbatim>\<open>no2\<close>, \<^verbatim>\<open>co\<close>, \<^verbatim>\<open>o3\<close> the number that
  \<^verbatim>\<open>parseFloat\<close> reads from its form field, and 0 whenever \<^verbatim>\<open>parseFloat\<close> reads no
  number, as for an empty field and for a field with no digit and no \<^verbatim>\<open>Infinity\<close>; the
  submitted value is never not-a-number. A negative value is submitted unchanged.
\<close>

theorem payload_field_values:
  "reading_fields (payload form) = map parse_or_zero (reading_fields form)
   \<and> (\<forall>i < 6.
        reading_fields (payload form) ! i
          = JNum (if parseFloat (reading_fields form ! i) = NaN then Fin 0
                  else parseFloat (reading_fields form ! i))
        \<and> reading_fields (payload form) ! i \<noteq> JNum NaN
        \<and> (reading_fields form ! i = '''' \<longrightarrow> reading_fields (payload form) ! i = JNum (Fin 0))
        \<and> ((\<forall>c \<in> set (reading_fields form ! i). \<not> is_digit c \<and> c \<noteq> CHR ''I'')
              \<longrightarrow> reading_fields (payload form) ! i = JNum (Fin 0))
        \<and> (\<forall>q. parseFloat (reading_fields form ! i) = Fin q \<and> q < 0
              \<longrightarrow> reading_fields (payload form) ! i = JNum (Fin q)))"
proof -
  have l: "length (reading_fields form) = 6"
    by (simp add: reading_fields_def)
  have n: "reading_fields (payload form) ! i = parse_or_zero (reading_fields form ! i)"
    if "i < 6" for i
    using that l by (simp add: reading_fields_payload)
  have main:
    "reading_fields (payload form) ! i
          = JNum (if parseFloat (reading_fields form ! i) = NaN then Fin 0
                  else parseFloat (reading_fields form ! i))
        \<and> reading_fields (payload form) ! i \<noteq> JNum NaN
        \<and> (reading_fields form ! i = [] \<longrightarrow> reading_fields (payload form) ! i = JNum (Fin 0))
        \<and> ((\<forall>c \<in> set (reading_fields form ! i). \<not> is_digit c \<and> c \<noteq> CHR ''I'')
              \<longrightarrow> reading_fields (payload form) ! i = JNum (Fin 0))
        \<and> (\<forall>q. parseFloat (reading_fields form ! i) = Fin q \<and> q < 0
              \<longrightarrow> reading_fields (payload form) ! i = JNum (Fin q))"
    if "i < 6" for i
    unfolding n [OF that]
    by (simp add: parse_or_zero_eq parseFloat_empty parseFloat_NaN_if_no_digit)
  show ?thesis
    using reading_fields_payload [of form] main by blast
qed

theorem payload_field_values_witness:
  "reading_fields (payload \<lparr>pm25 = ''-5'', pm10 = '''', so2 = ''abc'', no2 = ''12.5'',
                            co = ''e'', o3 = ''.''\<rparr>)
     = [JNum (Fin (- 5)), JNum (Fin 0), JNum (Fin 0), JNum (Fin (25 / 2)), JNum (Fin 0),
        JNum (Fin 0)]
   \<and> (0 :: nat) < 6 \<and> parseFloat ''-5'' = Fin (- 5) \<and> (- 5 :: rat) < 0
   \<and> (1 :: nat) < 6
   \<and> (2 :: nat) < 6 \<and> list_all (\<lambda>c. \<not> is_digit c \<and> c \<noteq> CHR ''I'') ''abc''
   \<and> (3 :: nat) < 6 \<and> parseFloat ''12.5'' = Fin (25 / 2)"
proof -
  let ?form = "\<lparr>pm25 = ''-5'', pm10 = '''', so2 = ''abc'', no2 = ''12.5'', co = ''e'',
                 o3 = ''.''\<rparr>"
  have f: "reading_fields ?form = [''-5'', '''', ''abc'', ''12.5'', ''e'', ''.'']"
    by (simp add: reading_fields_def)
  have a: "\<forall>c \<in> set ''abc''. \<not> is_digit c \<and> c \<noteq> CHR ''I''"
    and e: "\<forall>c \<in> set ''e''. \<not> is_digit c \<and> c \<noteq> CHR ''I''"
    and d: "\<forall>c \<in> set ''.''. \<not> is_digit c \<and> c \<noteq> CHR ''I''"
    by (simp_all add: is_digit_def)
  have n: "reading_fields ?form ! 0 = ''-5''" "reading_fields ?form ! 1 = []"
    "reading_fields ?form ! 2 = ''abc''" "reading_fields ?form ! 3 = ''12.5''"
    "reading_fields ?form ! 4 = ''e''" "reading_fields ?form ! 5 = ''.''"
    by (simp_all add: f)
  have lt: "(0 :: nat) < 6" "(1 :: nat) < 6" "(2 :: nat) < 6" "(3 :: nat) < 6" "(4 :: nat) < 6"
    "(5 :: nat) < 6"
    by simp_all
  have neg: "(- 5 :: rat) < 0"
    by simp
  note t = payload_field_values [of ?form, THEN conjunct2, rule_format]
  have l: "length (reading_fields (payload ?form)) = 6"
    by (simp add: reading_fields_def)
  from t [OF lt(1), unfolded n] parseFloat_minus_5 neg
  have 0: "reading_fields (payload ?form) ! 0 = JNum (Fin (- 5))"
    by blast
  from t [OF lt(2), unfolded n]
  have 1: "reading_fields (payload ?form) ! 1 = JNum (Fin 0)"
    by blast
  from t [OF lt(3), unfolded n] a
  have 2: "reading_fields (payload ?form) ! 2 = JNum (Fin 0)"
    by blast
  from t [OF lt(4), unfolded n parseFloat_12_5, THEN conjunct1]
  have 3: "reading_fields (payload ?form) ! 3 = JNum (Fin (25 / 2))"
    by simp
  from t [OF lt(5), unfolded n] e
  have 4: "reading_fields (payload ?form) ! 4 = JNum (Fin 0)"
    by blast
  from t [OF lt(6), unfolded n] d
  have 5: "reading_fields (payload ?form) ! 5 = JNum (Fin 0)"
    by blast
  have "reading_fields (payload ?form)
          = [JNum (Fin (- 5)), JNum (Fin 0), JNum (Fin 0), JNum (Fin (25 / 2)), JNum (Fin 0),
             JNum (Fin 0)]"
    using l 0 1 2 3 4 5 by (intro nth_equalityI) (auto simp: less_Suc_eq numeral_nat)
  then show ?thesis
    using parseFloat_minus_5 parseFloat_12_5 by (simp add: is_digit_def)
qed

section \<open>Properties of the tabular parser\<close>

lemma split_on_nonempty: "split_on sep s \<noteq> []"
  by (induction s) (simp_all split: list.splits)

lemma parse_csv_keys:
  assumes "valid_csv text" and "r \<in> set (parse_csv text)"
  shows "map fst r = header_fields text"
proof -
  from assms(2) obtain l where l: "l \<in> set (data_lines text)"
    and r: "r = zip (header_fields text) (map parse_cell (split_on (CHR '','') l))"
    by (auto simp: parse_csv_def)
  from assms(1) l have "length (split_on (CHR '','') l) = length (header_fields text)"
    by (simp add: valid_csv_def list_all_iff)
  then show ?thesis
    by (simp add: r)
qed

text \<open>
  C7. For every valid CSV text (a header line, at least one non-empty data line, and as
  many cells in each non-empty data line as the header has fields), parsing yields a row
  sequence with one record for each non-empty data line, every record has exactly the
  header's fields as its keys (so all records share one key set), and the upload handler
  stores this sequence as the dataset without reporting an error.
\<close>

theorem parse_csv_rows_and_keys:
  assumes "valid_csv text"
  shows "length (parse_csv text) = length (data_lines text)
         \<and> (\<forall>r \<in> set (parse_csv text).
               map fst r = header_fields text
               \<and> set (object_keys r) = set (header_fields text))
         \<and> csvData (handleFileUpload (Readable text) s) = parse_csv text
         \<and> csvError (handleFileUpload (Readable text) s) = ''''"
proof -
  have 1: "length (parse_csv text) = length (data_lines text)"
    by (simp add: parse_csv_def)
  have 2: "map fst r = header_fields text \<and> set (object_keys r) = set (header_fields text)"
    if "r \<in> set (parse_csv text)" for r
    using parse_csv_keys [OF assms that] set_object_keys [of r] by (metis set_map)
  from assms have "data_lines text \<noteq> []"
    by (simp add: valid_csv_def)
  then have "parse_csv text \<noteq> []"
    using 1 by auto
  then have 3: "csvData (handleFileUpload (Readable text) s) = parse_csv text"
    and 4: "csvError (handleFileUpload (Readable text) s) = ''''"
    by (simp_all add: on_complete_def)
  show ?thesis
    using 1 2 3 4 by simp
qed

lemma csv_example_lines:
  "csv_lines [CHR ''d'', CHR ''a'', CHR ''t'', CHR ''e'', CHR '','', CHR ''A'', CHR ''Q'',
              CHR ''I'', CHR 0x0A, CHR ''x'', CHR '','', CHR ''4'', CHR ''2'', CHR 0x0A,
              CHR 0x0A, CHR ''y'', CHR '','', CHR 0x0A]
     = [''date,AQI'', ''x,42'', '''', ''y,'', '''']"
  by (simp add: csv_lines_def)

lemma parse_cell_42: "parse_cell ''42'' = JNum (Fin 42)"
  using round_double_int [of 42]
  by (simp add: parse_cell_def is_decimal_literal_def after_exponent_def parseFloat_def
      unsigned_literal_def is_ws_def is_digit_def digits_val_def digit_val_def pow10_def)

theorem parse_csv_rows_and_keys_witness:
  "valid_csv [CHR ''d'', CHR ''a'', CHR ''t'', CHR ''e'', CHR '','', CHR ''A'', CHR ''Q'',
              CHR ''I'', CHR 0x0A, CHR ''x'', CHR '','', CHR ''4'', CHR ''2'', CHR 0x0A,
              CHR 0x0A, CHR ''y'', CHR '','', CHR 0x0A]
   \<and> parse_csv [CHR ''d'', CHR ''a'', CHR ''t'', CHR ''e'', CHR '','', CHR ''A'', CHR ''Q'',
              CHR ''I'', CHR 0x0A, CHR ''x'', CHR '','', CHR ''4'', CHR ''2'', CHR 0x0A,
              CHR 0x0A, CHR ''y'', CHR '','', CHR 0x0A]
       = [[(''date'', JStr ''x''), (''AQI'', JNum (Fin 42))],
          [(''date'', JStr ''y''), (''AQI'', JNull)]]
   \<and> length (parse_csv [CHR ''d'', CHR ''a'', CHR ''t'', CHR ''e'', CHR '','', CHR ''A'',
              CHR ''Q'', CHR ''I'', CHR 0x0A, CHR ''x'', CHR '','', CHR ''4'', CHR ''2'',
              CHR 0x0A, CHR 0x0A, CHR ''y'', CHR '','', CHR 0x0A]) = 2
   \<and> object_keys [(''date'', JStr ''y''), (''AQI'', JNull)] = [''date'', ''AQI'']"
proof -
  let ?text = "[CHR ''d'', CHR ''a'', CHR ''t'', CHR ''e'', CHR '','', CHR ''A'', CHR ''Q'',
              CHR ''I'', CHR 0x0A, CHR ''x'', CHR '','', CHR ''4'', CHR ''2'', CHR 0x0A,
              CHR 0x0A, CHR ''y'', CHR '','', CHR 0x0A]"
  have h: "header_fields ?text = [''date'', ''AQI'']"
    by (simp add: header_fields_def csv_example_lines)
  have d: "data_lines ?text = [''x,42'', ''y,'']"
    by (simp add: data_lines_def csv_example_lines)
  have v: "valid_csv ?text"
    by (simp add: valid_csv_def h d)
  have cells: "parse_cell ''x'' = JStr ''x''" "parse_cell ''y'' = JStr ''y''"
    "parse_cell [] = JNull"
    by (simp_all add: parse_cell_def is_decimal_literal_def is_digit_def)
  have p: "parse_csv ?text = [[(''date'', JStr ''x''), (''AQI'', JNum (Fin 42))],
          [(''date'', JStr ''y''), (''AQI'', JNull)]]"
    by (simp add: parse_csv_def h d cells parse_cell_42)
  have m: "[(''date'', JStr ''y''), (''AQI'', JNull)] \<in> set (parse_csv ?text)"
    by (simp add: p)
  from parse_csv_rows_and_keys [OF v, of "\<lparr>csvData = [], csvError = ''''\<rparr>"] m v p h d
  show ?thesis
    by (simp add: object_keys_def is_array_index_def is_digit_def)
qed

end
